theory Spec2Isabelle
  imports Main "HOL-Library.Word" "HOL-Library.AList"
begin

section \<open>The consumer host of \<^verbatim>\<open>consumer/host.go\<close>\<close>

text \<open>
  The host keeps one broker connection, runs one consumption task per queue, and
  passes every delivery through a chain of handlers that ends in an Ack or a Nack.
  Everything the Go code does besides returning a value (logging, sleeping,
  acknowledging, calling the collaborators) is recorded, in order, in a trace of
  events; a panic is a value, the left summand of a result.
\<close>

subsection \<open>Values of the runtime and of the amqp client\<close>

text \<open>
  An \<open>error\<close> is a non-nil value of Go's interface \<^verbatim>\<open>error\<close>: one made by
  \<^verbatim>\<open>errors.New\<close>, or any other one, given by the text of its \<^verbatim>\<open>Error()\<close> method.
  A nil error is \<open>None\<close> of \<open>error option\<close>.
\<close>

datatype error = ErrorsNew string | ErrorOther string

fun Error_text :: "error \<Rightarrow> string" where
  "Error_text (ErrorsNew t) = t"
| "Error_text (ErrorOther t) = t"

text \<open>
  The value a panic carries, as \<^verbatim>\<open>recover()\<close> returns it and as the type switch
  of \<^verbatim>\<open>panicHandler\<close> tells it apart: a string, an error, a value of any other
  dynamic type (given by its printed form), or nil. \<open>PanicNil\<close> is the panic
  started by \<^verbatim>\<open>panic(nil)\<close> under the semantics of Go up to 1.20, which are the
  ones of this package (it declares no later language version): \<^verbatim>\<open>recover()\<close>
  stops the panic and returns nil, as it does when there is no panic. (From Go
  1.21 on the runtime hands over a runtime error instead, a \<open>PanicError\<close>.)
\<close>

datatype panic_value = PanicString string | PanicError error | PanicOther string | PanicNil

text \<open>The fields of \<^verbatim>\<open>amqp.Delivery\<close> that the host reads.\<close>

record Delivery =
  RoutingKey :: string
  CorrelationId :: string
  DeliveryTag :: "64 word"
  Body :: string

datatype level = DebugLevel | InfoLevel | ErrorLevel | FatalLevel

text \<open>
  An argument of a logging call: a printed value, or the stack trace that
  \<^verbatim>\<open>debug.Stack()\<close> returns.
\<close>

datatype arg = Str string | StackTrace

text \<open>
  The effects, in the order the code performs them. \<open>Ack tag multiple\<close> and
  \<open>Nack tag multiple requeue\<close> are the calls \<^verbatim>\<open>d.Ack(multiple)\<close> and
  \<^verbatim>\<open>d.Nack(multiple, requeue)\<close> on the delivery with that tag. \<open>Log l f as\<close> is a
  call of the logger at level \<open>l\<close> with format \<open>f\<close> and arguments \<open>as\<close>; the
  unformatted calls (\<^verbatim>\<open>log.Error(x, y)\<close>) have the empty format. \<open>Sleep ms\<close> is
  \<^verbatim>\<open>time.Sleep\<close> (or a timer wait) of that many milliseconds. The remaining events
  are calls on the collaborators, with the queue key or the channel they are given.
\<close>

datatype event =
    Ack "64 word" bool
  | Nack "64 word" bool bool
  | Log level string "arg list"
  | Sleep nat
  | ChannelClose nat
  | ConnectionClose nat
  | BuildQueue string nat
  | BuildDeadletterQueue string nat
  | Consume string nat

type_synonym world = "event list"

text \<open>
  A \<^verbatim>\<open>HandlerFunc\<close> takes a delivery (the context argument carries nothing the host
  reads and is left out), performs effects, and either returns or panics.
  A \<^verbatim>\<open>KeyHandlerFunc\<close>, the business handler, returns an error or nil besides.
\<close>

type_synonym HandlerFunc = "Delivery \<Rightarrow> world \<Rightarrow> (panic_value + unit) \<times> world"

type_synonym KeyHandlerFunc = "Delivery \<Rightarrow> world \<Rightarrow> (panic_value + error option) \<times> world"

subsection \<open>The two handlers of the host\<close>

text \<open>
  \<^verbatim>\<open>panicHandler\<close> (lines 268-291): the deferred function runs when \<open>h\<close> returns and
  when it panics, and \<^verbatim>\<open>recover()\<close> ends the panic. The guard \<^verbatim>\<open>r != nil\<close> of line
  273 is false when \<open>h\<close> has returned and when the value of the panic is nil. In
  the type switch a string comes first, an error second, and everything else
  falls to \<^verbatim>\<open>default\<close>.
\<close>

definition panicHandler :: "HandlerFunc \<Rightarrow> HandlerFunc" where
  "panicHandler h = (\<lambda>d s.
     case h d s of
       (Inr u, s') \<Rightarrow> (Inr (), s')
     | (Inl r, s') \<Rightarrow>
         (if r \<noteq> PanicNil then
            (let err = (case r of
                          PanicString t \<Rightarrow> ErrorsNew t
                        | PanicError t \<Rightarrow> t
                        | PanicOther v \<Rightarrow> ErrorsNew ''unknown error''
                        | PanicNil \<Rightarrow> ErrorsNew ''unknown error'')
             in (Inr (), s' @
                   [Log ErrorLevel ''panic handler recovered from unexpected panic, error: %s''
                      [Str (Error_text err)],
                    Log DebugLevel ''stack: %s'' [StackTrace],
                    Nack (DeliveryTag d) False False]))
          else (Inr (), s')))"

text \<open>\<^verbatim>\<open>errorHandler\<close> (lines 298-308). A panic of the business handler passes through.\<close>

definition errorHandler :: "KeyHandlerFunc \<Rightarrow> HandlerFunc" where
  "errorHandler h = (\<lambda>d s.
     case h d s of
       (Inl r, s') \<Rightarrow> (Inl r, s')
     | (Inr (Some err), s') \<Rightarrow>
         (Inr (), s' @
            [Log InfoLevel ''error sending message with key %s and correlationid %v. Error: %s''
               [Str (RoutingKey d), Str (CorrelationId d), Str (Error_text err)],
             Nack (DeliveryTag d) False False])
     | (Inr None, s') \<Rightarrow> (Inr (), s' @ [Ack (DeliveryTag d) False]))"


subsection \<open>The middleware list and its composition\<close>

text \<open>
  A \<^verbatim>\<open>HostMiddleware\<close> is a Go function value: nil (\<open>None\<close>) or a function from
  handlers to handlers. Applying a middleware to a handler only builds the new
  handler.
\<close>

type_synonym HostMiddleware = "(HandlerFunc \<Rightarrow> HandlerFunc) option"

text \<open>
  \<^verbatim>\<open>MiddlewareList\<close> is a slice. Of its backing array the model keeps what the slice
  can reach: \<open>elems\<close>, the \<^verbatim>\<open>len(m)\<close> elements of the slice, and \<open>spare\<close>, the slots
  between the length and the capacity. The nil slice has neither.
\<close>

record MiddlewareList =
  elems :: "HostMiddleware list"
  spare :: "HostMiddleware list"

definition len :: "MiddlewareList \<Rightarrow> nat" where
  "len m = length (elems m)"

definition cap :: "MiddlewareList \<Rightarrow> nat" where
  "cap m = length (elems m) + length (spare m)"

definition nil_slice :: MiddlewareList where
  "nil_slice = \<lparr>elems = [], spare = []\<rparr>"

text \<open>
  The panic of the runtime when a nil function value is called. Runtime panics
  are error values.
\<close>

definition nil_call :: panic_value where
  "nil_call = PanicError (ErrorOther
     ''runtime error: invalid memory address or nil pointer dereference'')"

text \<open>
  \<^verbatim>\<open>buildChain\<close> (lines 353-360). \<^verbatim>\<open>m[1:cap(m)]\<close> is the slice that starts at the
  second element and reaches to the capacity: its elements are the rest of the
  elements followed by the spare slots, and it has no spare slot left. The
  argument of \<^verbatim>\<open>m[0](...)\<close> is evaluated before the call, so a panic of the inner
  call comes first; calling a nil \<^verbatim>\<open>m[0]\<close> panics.
\<close>

function buildChain :: "HandlerFunc \<Rightarrow> MiddlewareList \<Rightarrow> panic_value + HandlerFunc" where
  "buildChain f m =
     (case elems m of
        [] \<Rightarrow> Inr f
      | m0 # rest \<Rightarrow>
          (case buildChain f \<lparr>elems = rest @ spare m, spare = []\<rparr> of
             Inl p \<Rightarrow> Inl p
           | Inr inner \<Rightarrow>
               (case m0 of
                  None \<Rightarrow> Inl nil_call
                | Some mw \<Rightarrow> Inr (mw inner))))"
  by pat_completeness auto
termination
  by (relation "measure (\<lambda>(f, m). length (elems m) + length (spare m))") auto

declare buildChain.simps [simp del]

text \<open>
  The built-in \<^verbatim>\<open>append(m, fn...)\<close>. When the spare slots suffice the new elements
  are written into them. Otherwise a new array is allocated: the language leaves
  its capacity to the runtime, so the capacity the runtime picks is the parameter
  \<open>newcap\<close> (at least the new length); the slots beyond the new length hold the
  zero value, nil.
\<close>

definition append_slice :: "nat \<Rightarrow> MiddlewareList \<Rightarrow> HostMiddleware list \<Rightarrow> MiddlewareList" where
  "append_slice newcap m fn =
     (if length fn \<le> length (spare m)
      then \<lparr>elems = elems m @ fn, spare = drop (length fn) (spare m)\<rparr>
      else \<lparr>elems = elems m @ fn,
            spare = replicate (newcap - (length (elems m) + length fn)) None\<rparr>)"

subsection \<open>The host\<close>

text \<open>
  \<^verbatim>\<open>RabbitHost\<close> (lines 47-58). \<open>Address\<close> is the field of the configuration \<^verbatim>\<open>c\<close>.
  A connection and a channel are handles, given by a number; a nil connection is
  \<open>None\<close>. \<open>channels\<close> is the Go map from queue key to channel, kept as an
  association list with one entry per key; the order of the list stands for the
  order in which \<^verbatim>\<open>range\<close> happens to visit the map. The wait group, the mutex, the
  notification channel and the exchanges are not part of the record: the tasks
  that use them are modelled one by one below.
\<close>

record RabbitHost =
  Address :: string
  connection :: "nat option"
  channels :: "(string \<times> nat) list"
  middleware :: MiddlewareList
  connected :: bool
  shutdown :: bool

text \<open>The host that \<^verbatim>\<open>NewConsumerHost\<close> (lines 67-80) allocates.\<close>

definition NewConsumerHost :: "string \<Rightarrow> RabbitHost" where
  "NewConsumerHost addr =
     \<lparr>Address = addr, connection = None, channels = [], middleware = nil_slice,
      connected = False, shutdown = False\<rparr>"

text \<open>\<^verbatim>\<open>Middleware\<close> (lines 237-239).\<close>

definition Middleware :: "nat \<Rightarrow> HostMiddleware list \<Rightarrow> RabbitHost \<Rightarrow> RabbitHost" where
  "Middleware newcap fn h = h\<lparr>middleware := append_slice newcap (middleware h) fn\<rparr>"

text \<open>\<^verbatim>\<open>GetConnectionStatus\<close> (lines 262-264).\<close>

definition GetConnectionStatus :: "RabbitHost \<Rightarrow> bool" where
  "GetConnectionStatus h = connected h"

subsection \<open>Dialling the broker\<close>

text \<open>
  Whether a loop has been left, or is still going round when the inputs the
  environment supplies are used up.
\<close>

datatype progress = Done | Looping

text \<open>
  \<^verbatim>\<open>connect\<close> (lines 314-329). Each round of the loop dials once; the results of
  the successive calls of \<^verbatim>\<open>amqp.Dial\<close>, an error or a connection, are the list the
  environment supplies. When the list ends before a dial has succeeded the loop
  is still running, and the host and the trace are the ones reached so far.
\<close>

fun connect :: "(error + nat) list \<Rightarrow> RabbitHost \<Rightarrow> world \<Rightarrow> progress \<times> RabbitHost \<times> world" where
  "connect [] h s = (Looping, h, s)"
| "connect (Inr conn # dials) h s =
     (Done, h\<lparr>connected := True, connection := Some conn\<rparr>,
      s @ [Log InfoLevel ''connected to %s successful\<newline>'' [Str (Address h)]])"
| "connect (Inl err # dials) h s =
     connect dials h
       (s @ [Log ErrorLevel [] [Str (Error_text err)],
             Log InfoLevel ''Trying to reconnect to RabbitMQ at %s\<newline>'' [Str (Address h)],
             Sleep 200])"


subsection \<open>The tasks that Run starts\<close>

text \<open>
  How the process ends when a task ends it: \<^verbatim>\<open>log.Fatal\<close> logs and exits with
  status 1; a panic that no deferred function recovers crashes the process.
\<close>

datatype exit = Exit nat | Crash panic_value



text \<open>
  Of \<^verbatim>\<open>Routes\<close> the host reads the business handler only. A \<^verbatim>\<open>Consumer\<close> is given
  by what its three methods return: \<^verbatim>\<open>Init()\<close> a configuration (nil is \<open>None\<close>) and
  an error (nil is \<open>None\<close>), \<^verbatim>\<open>Queues(ctx)\<close> the routes of every queue key, in the
  order \<^verbatim>\<open>range\<close> visits them, and \<^verbatim>\<open>Middleware(h)\<close> the wrapped handler.
\<close>

record Routes =
  DeliveryFunc :: KeyHandlerFunc





text \<open>
  \<^verbatim>\<open>for d := range msgs\<close> (lines 162-164): the deliveries are those received until
  the channel of deliveries is closed.
\<close>

fun range_msgs :: "HandlerFunc \<Rightarrow> Delivery list \<Rightarrow> world \<Rightarrow> (panic_value + unit) \<times> world" where
  "range_msgs mw [] s = (Inr (), s)"
| "range_msgs mw (d # ds) s =
     (case panicHandler mw d s of
        (Inl p, s') \<Rightarrow> (Inl p, s')
      | (Inr u, s') \<Rightarrow> range_msgs mw ds s')"

text \<open>
  The task that consumes (lines 151-165), for the queue \<open>key\<close> on the channel
  \<open>queueChannel\<close>. \<open>consumed\<close> is what \<^verbatim>\<open>queueChannel.Consume\<close> returns: an error, or
  the deliveries. \<open>cmw\<close> is the method \<^verbatim>\<open>Middleware\<close> of the consumer.
\<close>

definition start_consuming ::
  "RabbitHost \<Rightarrow> (HandlerFunc \<Rightarrow> HandlerFunc) \<Rightarrow> Routes \<Rightarrow> string \<Rightarrow> nat \<Rightarrow>
   (error + Delivery list) \<Rightarrow> world \<Rightarrow> (exit + unit) \<times> world" where
  "start_consuming h cmw routes key queueChannel consumed s =
     (case consumed of
        Inl err \<Rightarrow>
          (Inl (Exit 1),
           s @ [Consume key queueChannel, Log FatalLevel [] [Str (Error_text err)]])
      | Inr msgs \<Rightarrow>
          (case buildChain (cmw (errorHandler (DeliveryFunc routes))) (middleware h) of
             Inl p \<Rightarrow> (Inl (Crash p), s @ [Consume key queueChannel])
           | Inr mw \<Rightarrow>
               (case range_msgs mw msgs (s @ [Consume key queueChannel]) of
                  (Inl p, s') \<Rightarrow> (Inl (Crash p), s')
                | (Inr u, s') \<Rightarrow> (Inr (), s'))))"





text \<open>
  One round of the dead-letter task, as the environment decides it: the value of
  \<^verbatim>\<open>h.shutdown\<close> the round reads, how many times \<^verbatim>\<open>h.connected\<close> reads false before
  it reads true, what \<^verbatim>\<open>h.connection.Channel()\<close> returns, and what
  \<^verbatim>\<open>cfg.BuildDeadletterQueue\<close> returns.
\<close>

record round =
  shutdown_read :: bool
  connected_polls :: nat
  channel_result :: "error + nat"
  build_result :: "error option"

text \<open>
  The dead-letter task of a queue (lines 197-220). The loop is left by the
  \<^verbatim>\<open>return\<close> of line 200 and by the \<^verbatim>\<open>break\<close> of line 214; after either the task
  is over.
\<close>

fun deadletter_loop :: "string \<Rightarrow> round list \<Rightarrow> world \<Rightarrow> progress \<times> world" where
  "deadletter_loop key [] s = (Looping, s)"
| "deadletter_loop key (r # rs) s =
     (if shutdown_read r then (Done, s)
      else
        (let s1 = s @ replicate (connected_polls r) (Sleep 200) @ [Sleep 1000]
         in case channel_result r of
              Inl err \<Rightarrow> (Done, s1 @ [Log ErrorLevel [] [Str (Error_text err)], Sleep 200])
            | Inr dlCh \<Rightarrow>
                deadletter_loop key rs
                  (s1 @ [BuildDeadletterQueue key dlCh] @
                   (case build_result r of
                      Some err \<Rightarrow> [Log ErrorLevel [] [Str (Error_text err)]]
                    | None \<Rightarrow> []))))"

subsection \<open>Stopping the host\<close>





subsection \<open>Counting acknowledgements\<close>

text \<open>
  The number of acknowledgement outcomes, Ack or Nack, that a trace holds for the
  delivery with a given tag.
\<close>

fun is_outcome :: "64 word \<Rightarrow> event \<Rightarrow> bool" where
  "is_outcome t (Ack t' multiple) = (t' = t)"
| "is_outcome t (Nack t' multiple requeue) = (t' = t)"
| "is_outcome t e = False"

definition outcomes :: "64 word \<Rightarrow> world \<Rightarrow> nat" where
  "outcomes t s = length (filter (is_outcome t) s)"

text \<open>
  A handler settles a delivery when, from every trace, it adds exactly one outcome
  for the delivery if it returns and none if it panics, adds no outcome for any
  other delivery, and does not panic with nil: what is left to do after a panic
  is the one Nack of the panic wrapper.
\<close>

definition settles :: "HandlerFunc \<Rightarrow> Delivery \<Rightarrow> bool" where
  "settles h d \<longleftrightarrow>
     (\<forall>s t. case h d s of
              (Inr u, s') \<Rightarrow>
                outcomes t s' = outcomes t s + (if t = DeliveryTag d then 1 else 0)
            | (Inl r, s') \<Rightarrow> r \<noteq> PanicNil \<and> outcomes t s' = outcomes t s)"

section \<open>Properties\<close>

subsection \<open>Facts about the composition of middleware\<close>

lemma buildChain_nil [simp]: "elems m = [] \<Longrightarrow> buildChain f m = Inr f"
  by (simp add: buildChain.simps)

lemma buildChain_closed:
  "buildChain f \<lparr>elems = xs, spare = sp\<rparr> =
     (if xs = [] then Inr f
      else if None \<in> set (xs @ sp) then Inl nil_call
      else Inr (foldr (\<lambda>mw. the mw) (xs @ sp) f))"
proof (induction "length xs + length sp" arbitrary: xs sp)
  case 0
  then show ?case by simp
next
  case (Suc n)
  show ?case
  proof (cases xs)
    case Nil
    then show ?thesis by simp
  next
    case (Cons m0 rest)
    have n: "n = length (rest @ sp) + length ([]::HostMiddleware list)"
      using Suc.hyps(2) Cons by simp
    have ih: "buildChain f \<lparr>elems = rest @ sp, spare = []\<rparr> =
      (if rest @ sp = [] then Inr f
       else if None \<in> set (rest @ sp) then Inl nil_call
       else Inr (foldr (\<lambda>mw. the mw) (rest @ sp) f))"
      using Suc.hyps(1) [OF n] by simp
    show ?thesis
      unfolding Cons
      by (subst buildChain.simps) (auto simp: ih split: option.splits)
  qed
qed

lemma foldr_the_Some: "foldr (\<lambda>mw. the mw) (map Some ms) f = foldr (\<lambda>mw inner. mw inner) ms f"
  by (induction ms) auto

lemma buildChain_full:
  "buildChain f \<lparr>elems = map Some ms, spare = []\<rparr> = Inr (foldr (\<lambda>mw inner. mw inner) ms f)"
  by (cases ms) (auto simp: buildChain_closed foldr_the_Some simp del: buildChain_nil)

lemma buildChain_spare:
  "ms \<noteq> [] \<Longrightarrow> 0 < k \<Longrightarrow>
   buildChain f \<lparr>elems = map Some ms, spare = replicate k None\<rparr> = Inl nil_call"
  by (simp add: buildChain_closed)

lemma append_slice_spare_nil:
  "set (spare m) \<subseteq> {None} \<Longrightarrow> set (spare (append_slice newcap m fn)) \<subseteq> {None}"
  by (auto simp: append_slice_def dest: in_set_dropD)

subsection \<open>Facts about counting outcomes\<close>

lemma outcomes_append: "outcomes t (a @ b) = outcomes t a + outcomes t b"
  by (simp add: outcomes_def)

lemma outcomes_Nil [simp]: "outcomes t [] = 0"
  by (simp add: outcomes_def)

lemma outcomes_Cons: "outcomes t (e # s) = (if is_outcome t e then 1 else 0) + outcomes t s"
  by (simp add: outcomes_def)

lemma settlesD:
  "settles h d \<Longrightarrow>
   (case h d s of
      (Inl r, s') \<Rightarrow> r \<noteq> PanicNil \<and> outcomes t s' = outcomes t s
    | (Inr u, s') \<Rightarrow> outcomes t s' = outcomes t s + (if t = DeliveryTag d then 1 else 0))"
  unfolding settles_def by (erule allE [of _ s], erule allE [of _ t])

lemma settles_errorHandler:
  assumes "\<forall>s t. fst (k d s) \<noteq> Inl PanicNil \<and> outcomes t (snd (k d s)) = outcomes t s"
  shows "settles (errorHandler k) d"
  unfolding settles_def
proof (intro allI)
  fix s t
  have "fst (k d s) \<noteq> Inl PanicNil \<and> outcomes t (snd (k d s)) = outcomes t s"
    using assms by blast
  then show "case errorHandler k d s of
      (Inl r, s') \<Rightarrow> r \<noteq> PanicNil \<and> outcomes t s' = outcomes t s
    | (Inr u, s') \<Rightarrow> outcomes t s' = outcomes t s + (if t = DeliveryTag d then 1 else 0)"
    by (cases "k d s")
       (auto simp: errorHandler_def outcomes_append outcomes_Cons
             split: sum.splits option.splits)
qed

lemma foldr_settles:
  assumes "settles f d"
    and "None \<notin> set ys"
    and "\<forall>mw. Some mw \<in> set ys \<longrightarrow> (\<forall>h. settles h d \<longrightarrow> settles (mw h) d)"
  shows "settles (foldr (\<lambda>mw. the mw) ys f) d"
  using assms(2,3)
proof (induction ys)
  case Nil
  then show ?case using assms(1) by simp
next
  case (Cons y ys)
  then obtain mw where y: "y = Some mw" by (cases y) auto
  have "settles (foldr (\<lambda>mw. the mw) ys f) d" using Cons by simp
  moreover have "\<forall>h. settles h d \<longrightarrow> settles (mw h) d" using Cons.prems(2) y by simp
  ultimately show ?case using y by simp
qed

lemma buildChain_settles:
  assumes "settles f d"
    and "\<forall>mw. Some mw \<in> set (elems m @ spare m) \<longrightarrow> (\<forall>h. settles h d \<longrightarrow> settles (mw h) d)"
    and "buildChain f m = Inr chain"
  shows "settles chain d"
proof -
  have m: "m = \<lparr>elems = elems m, spare = spare m\<rparr>" by simp
  have c: "buildChain f m =
     (if elems m = [] then Inr f
      else if None \<in> set (elems m @ spare m) then Inl nil_call
      else Inr (foldr (\<lambda>mw. the mw) (elems m @ spare m) f))"
    by (subst m) (rule buildChain_closed)
  show ?thesis
  proof (cases "elems m = []")
    case True
    then show ?thesis using c assms(1,3) by simp
  next
    case False
    then have n: "None \<notin> set (elems m @ spare m)"
      and ch: "chain = foldr (\<lambda>mw. the mw) (elems m @ spare m) f"
      using c assms(3) by (auto split: if_splits)
    show ?thesis unfolding ch by (rule foldr_settles [OF assms(1) n assms(2)])
  qed
qed

lemma buildChain_no_spare:
  assumes "cap m = len m" and "None \<notin> set (elems m)"
  shows "buildChain f m = Inr (foldr (\<lambda>mw. the mw) (elems m) f)"
proof -
  have "m = \<lparr>elems = elems m, spare = []\<rparr>"
    using assms(1) by (cases m) (simp add: cap_def len_def)
  then have "buildChain f m = buildChain f \<lparr>elems = elems m, spare = []\<rparr>" by simp
  then show ?thesis using assms(2) by (simp add: buildChain_closed del: buildChain_nil)
qed

lemma panicHandler_settles:
  assumes "settles h d"
  shows "fst (panicHandler h d s) = Inr () \<and>
         outcomes t (snd (panicHandler h d s)) =
           outcomes t s + (if t = DeliveryTag d then 1 else 0)"
proof -
  have "case h d s of
      (Inl r, s') \<Rightarrow> r \<noteq> PanicNil \<and> outcomes t s' = outcomes t s
    | (Inr u, s') \<Rightarrow> outcomes t s' = outcomes t s + (if t = DeliveryTag d then 1 else 0)"
    using assms by (rule settlesD)
  then show ?thesis
    by (cases "h d s")
       (auto simp: panicHandler_def Let_def outcomes_append outcomes_Cons split: sum.splits)
qed

lemma range_msgs_settles:
  assumes "\<forall>d \<in> set msgs. settles chain d"
  shows "fst (range_msgs chain msgs s) = Inr () \<and>
         outcomes t (snd (range_msgs chain msgs s)) =
           outcomes t s + length (filter (\<lambda>d. DeliveryTag d = t) msgs)"
  using assms
proof (induction msgs arbitrary: s)
  case Nil
  then show ?case by simp
next
  case (Cons d ds)
  have st: "settles chain d" using Cons.prems by simp
  obtain s1 where p: "panicHandler chain d s = (Inr (), s1)"
    using panicHandler_settles [OF st, of s t] by (cases "panicHandler chain d s") auto
  have o: "outcomes t s1 = outcomes t s + (if t = DeliveryTag d then 1 else 0)"
    using panicHandler_settles [OF st, of s t] p by simp
  have ih: "fst (range_msgs chain ds s1) = Inr () \<and>
         outcomes t (snd (range_msgs chain ds s1)) =
           outcomes t s1 + length (filter (\<lambda>d. DeliveryTag d = t) ds)"
    using Cons.IH [of s1] Cons.prems by simp
  show ?case using p o ih by auto
qed

lemma filter_tag_distinct:
  "distinct (map DeliveryTag msgs) \<Longrightarrow> d \<in> set msgs \<Longrightarrow>
   length (filter (\<lambda>x. DeliveryTag x = DeliveryTag d) msgs) = 1"
proof (induction msgs)
  case Nil
  then show ?case by simp
next
  case (Cons a msgs)
  show ?case
  proof (cases "DeliveryTag a = DeliveryTag d")
    case True
    then have "DeliveryTag d \<notin> DeliveryTag ` set msgs" using Cons.prems(1) by simp
    then have "\<forall>x \<in> set msgs. DeliveryTag x \<noteq> DeliveryTag d" by (metis imageI)
    then have "filter (\<lambda>x. DeliveryTag x = DeliveryTag d) msgs = []"
      by (simp add: filter_empty_conv)
    then show ?thesis using True by simp
  next
    case False
    then have "d \<in> set msgs" using Cons.prems(2) by auto
    then show ?thesis using Cons False by simp
  qed
qed

lemma logging_middleware_settles:
  "\<forall>h. settles h d \<longrightarrow> settles (\<lambda>d s. h d (s @ [Log l f as])) d"
proof (intro allI impI)
  fix h assume h: "settles h d"
  show "settles (\<lambda>d s. h d (s @ [Log l f as])) d"
    unfolding settles_def
  proof (intro allI)
    fix s t
    have "case h d (s @ [Log l f as]) of
        (Inl r, s') \<Rightarrow> r \<noteq> PanicNil \<and> outcomes t s' = outcomes t (s @ [Log l f as])
      | (Inr u, s') \<Rightarrow> outcomes t s' =
          outcomes t (s @ [Log l f as]) + (if t = DeliveryTag d then 1 else 0)"
      using h by (rule settlesD)
    then show "case h d (s @ [Log l f as]) of
        (Inl r, s') \<Rightarrow> r \<noteq> PanicNil \<and> outcomes t s' = outcomes t s
      | (Inr u, s') \<Rightarrow> outcomes t s' = outcomes t s + (if t = DeliveryTag d then 1 else 0)"
      by (cases "h d (s @ [Log l f as])")
         (auto simp: outcomes_append outcomes_Cons split: sum.splits)
  qed
qed

subsection \<open>Facts about the loops and the tasks\<close>

lemma connect_failures:
  "connect (map Inl errs @ dials) h s =
     connect dials h
       (s @ concat (map (\<lambda>err. [Log ErrorLevel [] [Str (Error_text err)],
                                Log InfoLevel ''Trying to reconnect to RabbitMQ at %s\<newline>''
                                  [Str (Address h)],
                                Sleep 200]) errs))"
  by (induction errs arbitrary: s) simp_all

lemma connect_Done_iff: "(fst (connect dials h s) = Done) = (\<exists>conn. Inr conn \<in> set dials)"
proof (induction dials arbitrary: s)
  case Nil
  then show ?case by simp
next
  case (Cons a dials)
  then show ?case by (cases a) auto
qed









subsection \<open>The message pipeline\<close>

text \<open>
  C1. The task that consumes runs, for every delivery, the panic wrapper around
  the chain that \<open>buildChain\<close> builds from the host-wide middleware around the
  consumer's middleware around the error adapter around the business handler.
  Let the business handler leave acknowledging to the host and not panic with
  nil; let every middleware, host-wide or of the consumer, keep the discipline of
  \<open>settles\<close> (true of a middleware that calls the handler it wraps once and does
  not acknowledge, panic or recover by itself); and let the list of middleware
  have no nil element and no spare capacity. Then the chain is built, and for
  every delivery the pipeline returns normally and has added exactly one outcome,
  an Ack or a Nack, for that delivery, however the business handler ends:
  returning nil, returning an error, or panicking. The task as a whole returns
  without a crash, and its trace holds for every tag as many new outcomes as there
  are deliveries with that tag: one for each delivery when the tags differ.
\<close>

theorem pipeline_one_outcome:
  assumes "\<forall>d \<in> set msgs. \<forall>s t. fst (DeliveryFunc routes d s) \<noteq> Inl PanicNil \<and>
             outcomes t (snd (DeliveryFunc routes d s)) = outcomes t s"
    and "\<forall>d \<in> set msgs. \<forall>f. settles f d \<longrightarrow> settles (cmw f) d"
    and "\<forall>mw. Some mw \<in> set (elems (middleware h)) \<longrightarrow>
           (\<forall>d \<in> set msgs. \<forall>f. settles f d \<longrightarrow> settles (mw f) d)"
    and "cap (middleware h) = len (middleware h)"
    and "None \<notin> set (elems (middleware h))"
  shows "\<exists>chain s'.
     buildChain (cmw (errorHandler (DeliveryFunc routes))) (middleware h) = Inr chain \<and>
     (\<forall>d \<in> set msgs. \<forall>s0.
        fst (panicHandler chain d s0) = Inr () \<and>
        outcomes (DeliveryTag d) (snd (panicHandler chain d s0)) =
          Suc (outcomes (DeliveryTag d) s0)) \<and>
     start_consuming h cmw routes key queueChannel (Inr msgs) s = (Inr (), s') \<and>
     (\<forall>t. outcomes t s' = outcomes t s + length (filter (\<lambda>d. DeliveryTag d = t) msgs)) \<and>
     (distinct (map DeliveryTag msgs) \<longrightarrow>
        (\<forall>d \<in> set msgs. outcomes (DeliveryTag d) s' = Suc (outcomes (DeliveryTag d) s)))"
proof -
  let ?f = "cmw (errorHandler (DeliveryFunc routes))"
  let ?chain = "foldr (\<lambda>mw. the mw) (elems (middleware h)) ?f"
  let ?s1 = "s @ [Consume key queueChannel]"
  let ?s' = "snd (range_msgs ?chain msgs ?s1)"
  have b: "buildChain ?f (middleware h) = Inr ?chain"
    using assms(4,5) by (rule buildChain_no_spare)
  have sp: "spare (middleware h) = []"
    using assms(4) by (simp add: cap_def len_def)
  have st: "\<forall>d \<in> set msgs. settles ?chain d"
  proof
    fix d assume d: "d \<in> set msgs"
    have "settles (errorHandler (DeliveryFunc routes)) d"
      using assms(1) d by (intro settles_errorHandler) blast
    then have f: "settles ?f d" using assms(2) d by blast
    have m: "\<forall>mw. Some mw \<in> set (elems (middleware h) @ spare (middleware h)) \<longrightarrow>
               (\<forall>f. settles f d \<longrightarrow> settles (mw f) d)"
      using assms(3) d sp by auto
    show "settles ?chain d" using f m b by (rule buildChain_settles)
  qed
  have one: "\<forall>d \<in> set msgs. \<forall>s0.
        fst (panicHandler ?chain d s0) = Inr () \<and>
        outcomes (DeliveryTag d) (snd (panicHandler ?chain d s0)) =
          Suc (outcomes (DeliveryTag d) s0)"
    using st panicHandler_settles [of ?chain _ _ ] by (auto simp: panicHandler_settles)
  have r: "\<And>t. fst (range_msgs ?chain msgs ?s1) = Inr () \<and>
         outcomes t ?s' = outcomes t ?s1 + length (filter (\<lambda>d. DeliveryTag d = t) msgs)"
    using st by (rule range_msgs_settles)
  have run: "start_consuming h cmw routes key queueChannel (Inr msgs) s = (Inr (), ?s')"
    using r [of 0] b by (cases "range_msgs ?chain msgs ?s1") (auto simp: start_consuming_def)
  have cnt: "\<forall>t. outcomes t ?s' = outcomes t s + length (filter (\<lambda>d. DeliveryTag d = t) msgs)"
    using r by (simp add: outcomes_append outcomes_Cons)
  have dis: "distinct (map DeliveryTag msgs) \<longrightarrow>
        (\<forall>d \<in> set msgs. outcomes (DeliveryTag d) ?s' = Suc (outcomes (DeliveryTag d) s))"
    using cnt by (simp add: filter_tag_distinct)
  show ?thesis using b one run cnt dis by blast
qed

theorem pipeline_one_outcome_witness:
  "fst (start_consuming
     (Middleware 1 [Some (\<lambda>f d s. f d (s @ [Log InfoLevel ''host middleware'' []]))]
        (NewConsumerHost ''amqp://broker''))
     (\<lambda>f. f)
     \<lparr>DeliveryFunc = (\<lambda>d s.
        if DeliveryTag d = 7 then (Inr None, s)
        else if DeliveryTag d = 8 then (Inr (Some (ErrorsNew ''boom'')), s)
        else (Inl (PanicString ''bang''), s))\<rparr>
     ''orders'' 1 (Inr [\<lparr>RoutingKey = ''orders.new'', CorrelationId = ''c-7'', DeliveryTag = 7, Body = ''x''\<rparr>, \<lparr>RoutingKey = ''orders.new'', CorrelationId = ''c-8'', DeliveryTag = 8, Body = ''y''\<rparr>, \<lparr>RoutingKey = ''orders.new'', CorrelationId = ''c-9'', DeliveryTag = 9, Body = ''z''\<rparr>]) []) = Inr () \<and>
   snd (start_consuming
     (Middleware 1 [Some (\<lambda>f d s. f d (s @ [Log InfoLevel ''host middleware'' []]))]
        (NewConsumerHost ''amqp://broker''))
     (\<lambda>f. f)
     \<lparr>DeliveryFunc = (\<lambda>d s.
        if DeliveryTag d = 7 then (Inr None, s)
        else if DeliveryTag d = 8 then (Inr (Some (ErrorsNew ''boom'')), s)
        else (Inl (PanicString ''bang''), s))\<rparr>
     ''orders'' 1 (Inr [\<lparr>RoutingKey = ''orders.new'', CorrelationId = ''c-7'', DeliveryTag = 7, Body = ''x''\<rparr>, \<lparr>RoutingKey = ''orders.new'', CorrelationId = ''c-8'', DeliveryTag = 8, Body = ''y''\<rparr>, \<lparr>RoutingKey = ''orders.new'', CorrelationId = ''c-9'', DeliveryTag = 9, Body = ''z''\<rparr>]) []) =
     [Consume ''orders'' 1,
      Log InfoLevel ''host middleware'' [],
      Ack 7 False,
      Log InfoLevel ''host middleware'' [],
      Log InfoLevel ''error sending message with key %s and correlationid %v. Error: %s''
        [Str ''orders.new'', Str ''c-8'', Str ''boom''],
      Nack 8 False False,
      Log InfoLevel ''host middleware'' [],
      Log ErrorLevel ''panic handler recovered from unexpected panic, error: %s'' [Str ''bang''],
      Log DebugLevel ''stack: %s'' [StackTrace],
      Nack 9 False False] \<and>
   outcomes 7 (snd (start_consuming
     (Middleware 1 [Some (\<lambda>f d s. f d (s @ [Log InfoLevel ''host middleware'' []]))]
        (NewConsumerHost ''amqp://broker''))
     (\<lambda>f. f)
     \<lparr>DeliveryFunc = (\<lambda>d s.
        if DeliveryTag d = 7 then (Inr None, s)
        else if DeliveryTag d = 8 then (Inr (Some (ErrorsNew ''boom'')), s)
        else (Inl (PanicString ''bang''), s))\<rparr>
     ''orders'' 1 (Inr [\<lparr>RoutingKey = ''orders.new'', CorrelationId = ''c-7'', DeliveryTag = 7, Body = ''x''\<rparr>, \<lparr>RoutingKey = ''orders.new'', CorrelationId = ''c-8'', DeliveryTag = 8, Body = ''y''\<rparr>, \<lparr>RoutingKey = ''orders.new'', CorrelationId = ''c-9'', DeliveryTag = 9, Body = ''z''\<rparr>]) [])) = 1 \<and>
   outcomes 8 (snd (start_consuming
     (Middleware 1 [Some (\<lambda>f d s. f d (s @ [Log InfoLevel ''host middleware'' []]))]
        (NewConsumerHost ''amqp://broker''))
     (\<lambda>f. f)
     \<lparr>DeliveryFunc = (\<lambda>d s.
        if DeliveryTag d = 7 then (Inr None, s)
        else if DeliveryTag d = 8 then (Inr (Some (ErrorsNew ''boom'')), s)
        else (Inl (PanicString ''bang''), s))\<rparr>
     ''orders'' 1 (Inr [\<lparr>RoutingKey = ''orders.new'', CorrelationId = ''c-7'', DeliveryTag = 7, Body = ''x''\<rparr>, \<lparr>RoutingKey = ''orders.new'', CorrelationId = ''c-8'', DeliveryTag = 8, Body = ''y''\<rparr>, \<lparr>RoutingKey = ''orders.new'', CorrelationId = ''c-9'', DeliveryTag = 9, Body = ''z''\<rparr>]) [])) = 1 \<and>
   outcomes 9 (snd (start_consuming
     (Middleware 1 [Some (\<lambda>f d s. f d (s @ [Log InfoLevel ''host middleware'' []]))]
        (NewConsumerHost ''amqp://broker''))
     (\<lambda>f. f)
     \<lparr>DeliveryFunc = (\<lambda>d s.
        if DeliveryTag d = 7 then (Inr None, s)
        else if DeliveryTag d = 8 then (Inr (Some (ErrorsNew ''boom'')), s)
        else (Inl (PanicString ''bang''), s))\<rparr>
     ''orders'' 1 (Inr [\<lparr>RoutingKey = ''orders.new'', CorrelationId = ''c-7'', DeliveryTag = 7, Body = ''x''\<rparr>, \<lparr>RoutingKey = ''orders.new'', CorrelationId = ''c-8'', DeliveryTag = 8, Body = ''y''\<rparr>, \<lparr>RoutingKey = ''orders.new'', CorrelationId = ''c-9'', DeliveryTag = 9, Body = ''z''\<rparr>]) [])) = 1"
proof -
  let ?mw = "\<lambda>(f::HandlerFunc) d s. f d (s @ [Log InfoLevel ''host middleware'' []])"
  let ?h = "Middleware 1 [Some ?mw] (NewConsumerHost ''amqp://broker'')"
  let ?routes = "\<lparr>DeliveryFunc = (\<lambda>d s.
        if DeliveryTag d = 7 then (Inr None, s)
        else if DeliveryTag d = 8 then (Inr (Some (ErrorsNew ''boom'')), s)
        else (Inl (PanicString ''bang''), s))\<rparr>"
  let ?msgs = "[\<lparr>RoutingKey = ''orders.new'', CorrelationId = ''c-7'', DeliveryTag = 7, Body = ''x''\<rparr>, \<lparr>RoutingKey = ''orders.new'', CorrelationId = ''c-8'', DeliveryTag = 8, Body = ''y''\<rparr>, \<lparr>RoutingKey = ''orders.new'', CorrelationId = ''c-9'', DeliveryTag = 9, Body = ''z''\<rparr>]"
  have m: "middleware ?h = \<lparr>elems = [Some ?mw], spare = []\<rparr>"
    by (simp add: Middleware_def NewConsumerHost_def nil_slice_def append_slice_def)
  have k: "\<forall>d \<in> set ?msgs. \<forall>s t. fst (DeliveryFunc ?routes d s) \<noteq> Inl PanicNil \<and>
             outcomes t (snd (DeliveryFunc ?routes d s)) = outcomes t s"
    by simp
  have cmw: "\<forall>d \<in> set ?msgs. \<forall>f. settles f d \<longrightarrow> settles ((\<lambda>f. f) f) d"
    by simp
  have mw: "\<forall>mw. Some mw \<in> set (elems (middleware ?h)) \<longrightarrow>
           (\<forall>d \<in> set ?msgs. \<forall>f. settles f d \<longrightarrow> settles (mw f) d)"
    unfolding m using logging_middleware_settles [of _ InfoLevel "''host middleware''" "[]"]
    by simp
  have c: "cap (middleware ?h) = len (middleware ?h)"
    unfolding m by (simp add: cap_def len_def)
  have n: "None \<notin> set (elems (middleware ?h))"
    unfolding m by simp
  have tr: "start_consuming ?h (\<lambda>f. f) ?routes ''orders'' 1 (Inr ?msgs) [] =
     (Inr (),
      [Consume ''orders'' 1,
       Log InfoLevel ''host middleware'' [],
       Ack 7 False,
       Log InfoLevel ''host middleware'' [],
       Log InfoLevel ''error sending message with key %s and correlationid %v. Error: %s''
         [Str ''orders.new'', Str ''c-8'', Str ''boom''],
       Nack 8 False False,
       Log InfoLevel ''host middleware'' [],
       Log ErrorLevel ''panic handler recovered from unexpected panic, error: %s'' [Str ''bang''],
       Log DebugLevel ''stack: %s'' [StackTrace],
       Nack 9 False False])"
    unfolding m start_consuming_def
    by (simp add: buildChain_closed panicHandler_def errorHandler_def middleware_def)
  from pipeline_one_outcome [OF k cmw mw c n, of "''orders''" 1 "[]"]
  obtain chain s' where
    run: "start_consuming ?h (\<lambda>f. f) ?routes ''orders'' 1 (Inr ?msgs) [] = (Inr (), s')"
    and cnt: "\<forall>t. outcomes t s' = outcomes t [] + length (filter (\<lambda>d. DeliveryTag d = t) ?msgs)"
    by blast
  have s': "s' = snd (start_consuming ?h (\<lambda>f. f) ?routes ''orders'' 1 (Inr ?msgs) [])"
    using run by simp
  have o: "outcomes 7 s' = 1" "outcomes 8 s' = 1" "outcomes 9 s' = 1"
    using cnt by simp_all
  show ?thesis
    using run o tr unfolding s' by simp
qed

text \<open>
  C1, as stated, fails on a pipeline whose middleware or business handler is not
  as above. A host-wide middleware, registered with \<^verbatim>\<open>Middleware\<close>, that calls the
  handler it wraps and then panics: the adapter has acknowledged, the wrapper
  negatively acknowledges, and the delivery has two outcomes. A middleware that
  returns without calling the handler it wraps: no outcome. A business handler
  that acknowledges the delivery itself and returns nil: two outcomes.
\<close>

theorem pipeline_one_outcome_counterexample:
  "start_consuming
     (Middleware 1
        [Some (\<lambda>f d s. case f d s of
                          (Inr u, s') \<Rightarrow> (Inl (PanicString ''after''), s')
                        | (Inl r, s') \<Rightarrow> (Inl r, s'))]
        (NewConsumerHost ''amqp://broker''))
     (\<lambda>f. f) \<lparr>DeliveryFunc = (\<lambda>d s. (Inr None, s))\<rparr> ''orders'' 1 (Inr [\<lparr>RoutingKey = ''orders.new'', CorrelationId = ''c-7'', DeliveryTag = 7, Body = ''x''\<rparr>]) [] =
     (Inr (),
      [Consume ''orders'' 1,
       Ack 7 False,
       Log ErrorLevel ''panic handler recovered from unexpected panic, error: %s'' [Str ''after''],
       Log DebugLevel ''stack: %s'' [StackTrace],
       Nack 7 False False]) \<and>
   outcomes 7
     [Consume ''orders'' 1,
      Ack 7 False,
      Log ErrorLevel ''panic handler recovered from unexpected panic, error: %s'' [Str ''after''],
      Log DebugLevel ''stack: %s'' [StackTrace],
      Nack 7 False False] = 2 \<and>
   start_consuming
     (Middleware 1 [Some (\<lambda>f d s. (Inr (), s))] (NewConsumerHost ''amqp://broker''))
     (\<lambda>f. f) \<lparr>DeliveryFunc = (\<lambda>d s. (Inr None, s))\<rparr> ''orders'' 1 (Inr [\<lparr>RoutingKey = ''orders.new'', CorrelationId = ''c-7'', DeliveryTag = 7, Body = ''x''\<rparr>]) [] =
     (Inr (), [Consume ''orders'' 1]) \<and>
   outcomes 7 [Consume ''orders'' 1] = 0 \<and>
   start_consuming (NewConsumerHost ''amqp://broker'')
     (\<lambda>f. f) \<lparr>DeliveryFunc = (\<lambda>d s. (Inr None, s @ [Ack (DeliveryTag d) False]))\<rparr>
     ''orders'' 1 (Inr [\<lparr>RoutingKey = ''orders.new'', CorrelationId = ''c-7'', DeliveryTag = 7, Body = ''x''\<rparr>]) [] =
     (Inr (), [Consume ''orders'' 1, Ack 7 False, Ack 7 False]) \<and>
   outcomes 7 [Consume ''orders'' 1, Ack 7 False, Ack 7 False] = 2"
  by (simp add: start_consuming_def Middleware_def NewConsumerHost_def nil_slice_def
      append_slice_def buildChain_closed panicHandler_def errorHandler_def outcomes_def)

text \<open>
  C5. A panic whose value is nil (\<^verbatim>\<open>panic(nil)\<close>) beneath the panic wrapper is
  stopped by \<^verbatim>\<open>recover()\<close>, but the guard of line 273 takes it for no panic: the
  wrapper returns normally with nothing logged and no Nack, and the delivery is
  left without an outcome. A panic with any other value is turned into an error
  (the text of a string, the error itself, or "unknown error"), the error and the
  stack are logged, and the delivery is negatively acknowledged with
  multiple=false and requeue=false; when nothing panics the wrapper adds nothing.
  Here \<open>tr\<close> is the trace the wrapped handler leaves.
\<close>

theorem panicHandler_skips_nil_panic:
  "panicHandler (\<lambda>d' s'. (Inl PanicNil, tr)) d s = (Inr (), tr) \<and>
   panicHandler (\<lambda>d' s'. (Inl (PanicString t), tr)) d s =
     (Inr (), tr @
        [Log ErrorLevel ''panic handler recovered from unexpected panic, error: %s'' [Str t],
         Log DebugLevel ''stack: %s'' [StackTrace],
         Nack (DeliveryTag d) False False]) \<and>
   panicHandler (\<lambda>d' s'. (Inl (PanicError e), tr)) d s =
     (Inr (), tr @
        [Log ErrorLevel ''panic handler recovered from unexpected panic, error: %s''
           [Str (Error_text e)],
         Log DebugLevel ''stack: %s'' [StackTrace],
         Nack (DeliveryTag d) False False]) \<and>
   panicHandler (\<lambda>d' s'. (Inl (PanicOther v), tr)) d s =
     (Inr (), tr @
        [Log ErrorLevel ''panic handler recovered from unexpected panic, error: %s''
           [Str ''unknown error''],
         Log DebugLevel ''stack: %s'' [StackTrace],
         Nack (DeliveryTag d) False False]) \<and>
   panicHandler (\<lambda>d' s'. (Inr (), tr)) d s = (Inr (), tr) \<and>
   fst (panicHandler h d s) = Inr ()"
  by (auto simp: panicHandler_def Let_def split: prod.splits sum.splits)

text \<open>
  C6. For every delivery, the error adapter calls the business handler first; when
  the handler returns nil the adapter acknowledges the delivery with multiple=false
  and does nothing else; when it returns an error the adapter logs the routing key,
  the correlation id and the error, then negatively acknowledges the delivery with
  multiple=false and requeue=false. Either way the adapter returns normally.
\<close>

theorem errorHandler_ack_nack:
  "(h d s = (Inr None, s') \<longrightarrow>
      errorHandler h d s = (Inr (), s' @ [Ack (DeliveryTag d) False])) \<and>
   (h d s = (Inr (Some err), s') \<longrightarrow>
      errorHandler h d s =
        (Inr (), s' @
           [Log InfoLevel ''error sending message with key %s and correlationid %v. Error: %s''
              [Str (RoutingKey d), Str (CorrelationId d), Str (Error_text err)],
            Nack (DeliveryTag d) False False]))"
  by (simp add: errorHandler_def)

theorem errorHandler_ack_nack_witness:
  "errorHandler (\<lambda>d s. (Inr None, s @ [Sleep 5]))
       \<lparr>RoutingKey = ''orders.new'', CorrelationId = ''c-1'', DeliveryTag = 7, Body = ''x''\<rparr> []
     = (Inr (), [Sleep 5, Ack 7 False]) \<and>
   errorHandler (\<lambda>d s. (Inr (Some (ErrorsNew ''boom'')), s))
       \<lparr>RoutingKey = ''orders.new'', CorrelationId = ''c-1'', DeliveryTag = 7, Body = ''x''\<rparr> []
     = (Inr (),
        [Log InfoLevel ''error sending message with key %s and correlationid %v. Error: %s''
           [Str ''orders.new'', Str ''c-1'', Str ''boom''],
         Nack 7 False False])"
  using errorHandler_ack_nack
    [of "\<lambda>d s. (Inr None, s @ [Sleep 5])"
        "\<lparr>RoutingKey = ''orders.new'', CorrelationId = ''c-1'', DeliveryTag = 7, Body = ''x''\<rparr>"
        "[]" "[Sleep 5]" "ErrorsNew ''boom''"]
    errorHandler_ack_nack
    [of "\<lambda>d s. (Inr (Some (ErrorsNew ''boom'')), s)"
        "\<lparr>RoutingKey = ''orders.new'', CorrelationId = ''c-1'', DeliveryTag = 7, Body = ''x''\<rparr>"
        "[]" "[]" "ErrorsNew ''boom''"]
  by simp

subsection \<open>Composition of the middleware\<close>

text \<open>
  C4. Two middleware registered as A then B give the chain A around B around the
  handler. Insertion order is wrapping order only while the list has no spare
  capacity: after three registrations, one call of \<^verbatim>\<open>Middleware\<close> each, on a host
  whose list grew to the capacities 1, 2 and 4 (the capacities the Go runtime
  picks), \<open>buildChain\<close> calls the nil fourth slot and panics.
\<close>

theorem Middleware_three_calls_panics:
  "buildChain f (middleware (Middleware 2 [Some B] (Middleware 1 [Some A]
      (NewConsumerHost addr)))) = Inr (A (B f)) \<and>
   buildChain f (middleware (Middleware 4 [Some C] (Middleware 2 [Some B]
      (Middleware 1 [Some A] (NewConsumerHost addr))))) = Inl nil_call"
  by (simp add: Middleware_def NewConsumerHost_def nil_slice_def append_slice_def
      buildChain_closed)

text \<open>
  C9. \<open>buildChain\<close> returns the handler for an empty list, and otherwise wraps
  the first middleware around the chain built over the list from its second
  element to its capacity. When the capacity equals the length and the registered
  middleware are not nil, the result is the registered middleware nested in order.
  When the list is not empty and has spare capacity, left nil by \<^verbatim>\<open>append\<close>, the
  build calls a nil function and panics.
\<close>

theorem buildChain_needs_cap_eq_len:
  "buildChain f \<lparr>elems = [], spare = sp\<rparr> = Inr f \<and>
   buildChain f \<lparr>elems = m0 # rest, spare = sp\<rparr> =
     (case buildChain f \<lparr>elems = rest @ sp, spare = []\<rparr> of
        Inl p \<Rightarrow> Inl p
      | Inr inner \<Rightarrow> (case m0 of None \<Rightarrow> Inl nil_call | Some mw \<Rightarrow> Inr (mw inner))) \<and>
   (cap m = len m \<and> elems m = map Some ms \<longrightarrow>
      buildChain f m = Inr (foldr (\<lambda>mw inner. mw inner) ms f)) \<and>
   (0 < len m \<and> len m < cap m \<and> elems m = map Some ms \<and>
    spare m = replicate (cap m - len m) None \<longrightarrow>
      buildChain f m = Inl nil_call)"
proof (intro conjI impI)
  show "buildChain f \<lparr>elems = [], spare = sp\<rparr> = Inr f" by simp
  show "buildChain f \<lparr>elems = m0 # rest, spare = sp\<rparr> =
     (case buildChain f \<lparr>elems = rest @ sp, spare = []\<rparr> of
        Inl p \<Rightarrow> Inl p
      | Inr inner \<Rightarrow> (case m0 of None \<Rightarrow> Inl nil_call | Some mw \<Rightarrow> Inr (mw inner)))"
    by (subst buildChain.simps) simp
next
  assume a: "cap m = len m \<and> elems m = map Some ms"
  then have "m = \<lparr>elems = map Some ms, spare = []\<rparr>"
    by (cases m) (simp add: cap_def len_def)
  then show "buildChain f m = Inr (foldr (\<lambda>mw inner. mw inner) ms f)"
    by (simp only: buildChain_full)
next
  assume a: "0 < len m \<and> len m < cap m \<and> elems m = map Some ms \<and>
    spare m = replicate (cap m - len m) None"
  then have m: "m = \<lparr>elems = map Some ms, spare = replicate (cap m - len m) None\<rparr>"
    by (cases m) simp
  from a have "ms \<noteq> []" "0 < cap m - len m" by (auto simp: len_def)
  then have "buildChain f \<lparr>elems = map Some ms, spare = replicate (cap m - len m) None\<rparr> = Inl nil_call"
    by (rule buildChain_spare)
  with m show "buildChain f m = Inl nil_call" by simp
qed

theorem buildChain_needs_cap_eq_len_witness:
  "buildChain (\<lambda>d s. (Inr (), s))
     \<lparr>elems = [Some (\<lambda>h d s. h d (s @ [Log InfoLevel ''A'' []])),
               Some (\<lambda>h d s. h d (s @ [Log InfoLevel ''B'' []]))],
      spare = []\<rparr> =
     Inr (\<lambda>d s. (Inr (), s @ [Log InfoLevel ''A'' []] @ [Log InfoLevel ''B'' []])) \<and>
   buildChain (\<lambda>d s. (Inr (), s))
     \<lparr>elems = [Some (\<lambda>h d s. h d (s @ [Log InfoLevel ''A'' []])),
               Some (\<lambda>h d s. h d (s @ [Log InfoLevel ''B'' []])),
               Some (\<lambda>h d s. h d (s @ [Log InfoLevel ''C'' []]))],
      spare = [None]\<rparr> = Inl nil_call"
  using buildChain_needs_cap_eq_len
      [of "\<lambda>d s. (Inr (), s)" "[]" "None" "[]"
          "\<lparr>elems = [Some (\<lambda>h d s. h d (s @ [Log InfoLevel ''A'' []])),
               Some (\<lambda>h d s. h d (s @ [Log InfoLevel ''B'' []]))],
            spare = []\<rparr>"
          "[\<lambda>h d s. h d (s @ [Log InfoLevel ''A'' []]),
            \<lambda>h d s. h d (s @ [Log InfoLevel ''B'' []])]"]
    buildChain_needs_cap_eq_len
      [of "\<lambda>d s. (Inr (), s)" "[]" "None" "[]"
          "\<lparr>elems = [Some (\<lambda>h d s. h d (s @ [Log InfoLevel ''A'' []])),
               Some (\<lambda>h d s. h d (s @ [Log InfoLevel ''B'' []])),
               Some (\<lambda>h d s. h d (s @ [Log InfoLevel ''C'' []]))],
            spare = [None]\<rparr>"
          "[\<lambda>h d s. h d (s @ [Log InfoLevel ''A'' []]),
            \<lambda>h d s. h d (s @ [Log InfoLevel ''B'' []]),
            \<lambda>h d s. h d (s @ [Log InfoLevel ''C'' []])]"]
  by (simp add: cap_def len_def)

subsection \<open>Connection, tasks and shutdown\<close>

text \<open>
  C7. \<open>connect\<close> dials again after every failure, logging the error and the
  retry and sleeping 200 ms, and is done exactly when a dial succeeds: while
  every dial so far has failed it is still looping and the host is unchanged; at
  the first success it sets the connected flag, stores that connection and
  returns, whatever later dials would give. It has no other way to end. When the
  dial fails twice and then succeeds on a new host, the flag is still false after
  the two failures, which log two retries, and true after the third attempt.
\<close>

theorem connect_retries_until_dial_succeeds:
  "connect (map Inl errs) h s =
     (Looping, h,
      s @ concat (map (\<lambda>err. [Log ErrorLevel [] [Str (Error_text err)],
                               Log InfoLevel ''Trying to reconnect to RabbitMQ at %s\<newline>''
                                 [Str (Address h)],
                               Sleep 200]) errs)) \<and>
   connect (map Inl errs @ Inr conn # dials) h s =
     (Done, h\<lparr>connected := True, connection := Some conn\<rparr>,
      s @ concat (map (\<lambda>err. [Log ErrorLevel [] [Str (Error_text err)],
                               Log InfoLevel ''Trying to reconnect to RabbitMQ at %s\<newline>''
                                 [Str (Address h)],
                               Sleep 200]) errs)
        @ [Log InfoLevel ''connected to %s successful\<newline>'' [Str (Address h)]]) \<and>
   (fst (connect dials h s) = Done) = (\<exists>conn. Inr conn \<in> set dials) \<and>
   connect [Inl e1, Inl e2] (NewConsumerHost addr) [] =
     (Looping, NewConsumerHost addr,
      [Log ErrorLevel [] [Str (Error_text e1)],
       Log InfoLevel ''Trying to reconnect to RabbitMQ at %s\<newline>'' [Str addr],
       Sleep 200,
       Log ErrorLevel [] [Str (Error_text e2)],
       Log InfoLevel ''Trying to reconnect to RabbitMQ at %s\<newline>'' [Str addr],
       Sleep 200]) \<and>
   \<not> GetConnectionStatus (NewConsumerHost addr) \<and>
   connect [Inl e1, Inl e2, Inr conn] (NewConsumerHost addr) [] =
     (Done, (NewConsumerHost addr)\<lparr>connected := True, connection := Some conn\<rparr>,
      [Log ErrorLevel [] [Str (Error_text e1)],
       Log InfoLevel ''Trying to reconnect to RabbitMQ at %s\<newline>'' [Str addr],
       Sleep 200,
       Log ErrorLevel [] [Str (Error_text e2)],
       Log InfoLevel ''Trying to reconnect to RabbitMQ at %s\<newline>'' [Str addr],
       Sleep 200,
       Log InfoLevel ''connected to %s successful\<newline>'' [Str addr]]) \<and>
   GetConnectionStatus ((NewConsumerHost addr)\<lparr>connected := True, connection := Some conn\<rparr>)"
proof (intro conjI)
  show "connect (map Inl errs) h s =
     (Looping, h,
      s @ concat (map (\<lambda>err. [Log ErrorLevel [] [Str (Error_text err)],
                               Log InfoLevel ''Trying to reconnect to RabbitMQ at %s\<newline>''
                                 [Str (Address h)],
                               Sleep 200]) errs))"
    using connect_failures [of errs "[]" h s] by simp
  show "connect (map Inl errs @ Inr conn # dials) h s =
     (Done, h\<lparr>connected := True, connection := Some conn\<rparr>,
      s @ concat (map (\<lambda>err. [Log ErrorLevel [] [Str (Error_text err)],
                               Log InfoLevel ''Trying to reconnect to RabbitMQ at %s\<newline>''
                                 [Str (Address h)],
                               Sleep 200]) errs)
        @ [Log InfoLevel ''connected to %s successful\<newline>'' [Str (Address h)]])"
    by (simp add: connect_failures)
  show "(fst (connect dials h s) = Done) = (\<exists>conn. Inr conn \<in> set dials)"
    by (rule connect_Done_iff)
qed (simp_all add: NewConsumerHost_def GetConnectionStatus_def)

text \<open>
  C8. In the task that consumes for a queue, when \<^verbatim>\<open>Consume\<close> returns an error the
  error is logged with \<^verbatim>\<open>log.Fatal\<close> and the process exits with status 1: nothing
  is retried and no handler is built.
\<close>

theorem Consume_error_is_fatal:
  "start_consuming h cmw routes key queueChannel (Inl err) s =
     (Inl (Exit 1), s @ [Consume key queueChannel, Log FatalLevel [] [Str (Error_text err)]])"
  by (simp add: start_consuming_def)



text \<open>
  C3. In a round of the dead-letter task that reads the shutdown flag as false,
  an error from \<^verbatim>\<open>h.connection.Channel()\<close> is logged, the task sleeps 200 ms, and
  the \<^verbatim>\<open>break\<close> of line 214 leaves the loop: the task is over although shutdown
  is false, and the later rounds do not run. An error from the dead-letter build
  is logged and the loop goes on.
\<close>

theorem deadletter_loop_breaks_on_channel_error:
  "deadletter_loop key
     (\<lparr>shutdown_read = False, connected_polls = n, channel_result = Inl err,
       build_result = b\<rparr> # rs) s =
     (Done, s @ replicate n (Sleep 200) @
              [Sleep 1000, Log ErrorLevel [] [Str (Error_text err)], Sleep 200]) \<and>
   deadletter_loop key
     (\<lparr>shutdown_read = False, connected_polls = n, channel_result = Inr dlCh,
       build_result = Some err\<rparr> # rs) s =
     deadletter_loop key rs
       (s @ replicate n (Sleep 200) @
          [Sleep 1000, BuildDeadletterQueue key dlCh,
           Log ErrorLevel [] [Str (Error_text err)]])"
  by simp




end
